theory Spec2Isabelle
  imports Complex_Main
begin

section \<open>Conventions of the embedding\<close>

text \<open>
  The development embeds the monitoring engine of \<^verbatim>\<open>gms_monitor.py\<close>.

  \<^item> Python \<^verbatim>\<open>float\<close> values (round-trip times, percentages, time stamps) are embedded
    as exact rationals (\<^typ>\<open>rat\<close>): the arithmetic of the source is kept operation by
    operation, binary rounding and overflow to infinity are not represented.
  \<^item> Python \<^verbatim>\<open>int\<close> values are unbounded and embedded as \<^typ>\<open>int\<close>.
  \<^item> \<^verbatim>\<open>None\<close> is \<^const>\<open>None\<close> of an option type.
  \<^item> An operation of the source that can raise (true division, \<^verbatim>\<open>min\<close> and \<^verbatim>\<open>max\<close> of a
    sequence) returns a sum, with \<^const>\<open>Inl\<close> for the exception.
  \<^item> Text is a list of characters; a character stands for the code point of the same
    number (code points below 256).
\<close>

section \<open>Windowed statistics\<close>

datatype py_error = ZeroDivisionError | ValueError

text \<open>Sequencing of computations that can raise.\<close>

definition bind_sum :: "'e + 'a \<Rightarrow> ('a \<Rightarrow> 'e + 'b) \<Rightarrow> 'e + 'b" where
  "bind_sum m f = (case m of Inl e \<Rightarrow> Inl e | Inr v \<Rightarrow> f v)"

text \<open>Python's \<^verbatim>\<open>a / b\<close>: raises \<^verbatim>\<open>ZeroDivisionError\<close> when the divisor is zero.\<close>

definition py_truediv :: "rat \<Rightarrow> rat \<Rightarrow> py_error + rat" where
  "py_truediv a b = (if b = 0 then Inl ZeroDivisionError else Inr (a / b))"

text \<open>Python's \<^verbatim>\<open>min(xs)\<close> and \<^verbatim>\<open>max(xs)\<close>: \<^verbatim>\<open>ValueError\<close> on an empty sequence.\<close>

definition py_min :: "rat list \<Rightarrow> py_error + rat" where
  "py_min xs = (case xs of [] \<Rightarrow> Inl ValueError | x # ys \<Rightarrow> Inr (fold min ys x))"

definition py_max :: "rat list \<Rightarrow> py_error + rat" where
  "py_max xs = (case xs of [] \<Rightarrow> Inl ValueError | x # ys \<Rightarrow> Inr (fold max ys x))"

text \<open>
  The slice \<^verbatim>\<open>xs[-n:]\<close> for a positive \<^verbatim>\<open>n\<close>: the last \<^verbatim>\<open>n\<close> elements, all of them
  when the sequence is shorter.
\<close>

definition slice_last :: "'a list \<Rightarrow> int \<Rightarrow> 'a list" where
  "slice_last xs n = drop (length xs - nat n) xs"

text \<open>
  The value returned by \<^verbatim>\<open>compute_recent_stats\<close>, in the order of the source:
  \<^verbatim>\<open>(recent_loss_pct, recent_avg_ping_ms, recent_count, recent_lost,
  recent_min_ping_ms, recent_max_ping_ms, jitter_ms)\<close>.
\<close>

type_synonym recent_stats =
  "rat \<times> rat option \<times> int \<times> int \<times> rat option \<times> rat option \<times> rat option"

definition stats_avg :: "recent_stats \<Rightarrow> rat option" where
  "stats_avg st = (case st of (l, a, c, lo, mn, mx, j) \<Rightarrow> a)"

definition stats_count :: "recent_stats \<Rightarrow> int" where
  "stats_count st = (case st of (l, a, c, lo, mn, mx, j) \<Rightarrow> c)"

definition stats_max :: "recent_stats \<Rightarrow> rat option" where
  "stats_max st = (case st of (l, a, c, lo, mn, mx, j) \<Rightarrow> mx)"

text \<open>
  The list comprehension
  \<^verbatim>\<open>[abs(successes[i] - successes[i - 1]) for i in range(1, recent_success)]\<close>.
\<close>

definition deltas_of :: "rat list \<Rightarrow> rat list" where
  "deltas_of successes =
     map (\<lambda>i. \<bar>successes ! i - successes ! (i - 1)\<bar>) [1 ..< length successes]"

definition compute_recent_stats :: "rat option list \<Rightarrow> int \<Rightarrow> py_error + recent_stats" where
  "compute_recent_stats ping_history window_size =
     (if window_size \<le> 0 then Inr (0, None, 0, 0, None, None, None)
      else
        let recent = slice_last ping_history window_size;
            recent_count = int (length recent)
        in
        if recent_count = 0 then Inr (0, None, 0, 0, None, None, None)
        else
          let successes = map the (filter (\<lambda>v. v \<noteq> None) recent);
              recent_sent = recent_count;
              recent_success = int (length successes);
              recent_lost = recent_sent - recent_success
          in
          bind_sum
            (if recent_sent > 0
             then bind_sum (py_truediv (of_int recent_lost) (of_int recent_sent))
                    (\<lambda>q. Inr (q * 100))
             else Inr 0)
            (\<lambda>recent_loss_pct.
          bind_sum
            (if recent_success > 0
             then bind_sum (py_truediv (sum_list successes) (of_int recent_success))
                    (\<lambda>q. Inr (Some q))
             else Inr None)
            (\<lambda>recent_avg_ping.
          bind_sum
            (if recent_success > 0
             then bind_sum (py_min successes) (\<lambda>m. Inr (Some m))
             else Inr None)
            (\<lambda>recent_min_ping.
          bind_sum
            (if recent_success > 0
             then bind_sum (py_max successes) (\<lambda>m. Inr (Some m))
             else Inr None)
            (\<lambda>recent_max_ping.
          bind_sum
            (if recent_success > 1
             then
               let deltas = deltas_of successes
               in bind_sum (py_truediv (sum_list deltas) (of_int (int (length deltas))))
                    (\<lambda>q. Inr (Some q))
             else Inr None)
            (\<lambda>jitter_ms.
          Inr (recent_loss_pct, recent_avg_ping, recent_count, recent_lost,
               recent_min_ping, recent_max_ping, jitter_ms)))))))"

text \<open>
  The specification's reading of the same aggregates, used for comparison only: the
  present values of a slice, their mean, and the absolute differences of neighbours
  among the present values.
\<close>

definition present_values :: "rat option list \<Rightarrow> rat list" where
  "present_values xs = concat (map (\<lambda>v. case v of None \<Rightarrow> [] | Some r \<Rightarrow> [r]) xs)"

definition absent_count :: "rat option list \<Rightarrow> nat" where
  "absent_count xs = length (filter (\<lambda>v. v = None) xs)"

fun consecutive_deltas :: "rat list \<Rightarrow> rat list" where
  "consecutive_deltas (x # y # rest) = \<bar>y - x\<bar> # consecutive_deltas (y # rest)"
| "consecutive_deltas _ = []"

definition mean :: "rat list \<Rightarrow> rat" where
  "mean xs = sum_list xs / of_nat (length xs)"

section \<open>Quality classification and alerts\<close>

text \<open>
  The label chosen by \<^verbatim>\<open>draw_ui\<close> from the statistics of the window. The source stores
  the localized text of the label; the embedding keeps the key of the text.
\<close>

datatype quality =
  QUALITY_UNKNOWN | QUALITY_EXCELLENT | QUALITY_GOOD | QUALITY_FAIR | QUALITY_POOR

definition quality_label :: "recent_stats \<Rightarrow> int \<Rightarrow> quality" where
  "quality_label st window_size =
     (case st of
        (recent_loss_pct, recent_avg_ping, recent_count, recent_lost,
         recent_min_ping, recent_max_ping, jitter_ms) \<Rightarrow>
        if recent_count \<ge> max 20 (window_size div 2) \<and> recent_avg_ping \<noteq> None then
          (if recent_loss_pct < 1 \<and> the recent_avg_ping < 40 \<and>
              (jitter_ms = None \<or> the jitter_ms < 5)
           then QUALITY_EXCELLENT
           else if recent_loss_pct < 2 \<and> the recent_avg_ping < 80 then QUALITY_GOOD
           else if recent_loss_pct < 5 \<and> the recent_avg_ping < 150 then QUALITY_FAIR
           else QUALITY_POOR)
        else QUALITY_UNKNOWN)"

text \<open>The classification as \<^verbatim>\<open>draw_ui\<close> computes it from a snapshot of the history.\<close>

definition draw_ui_quality :: "rat option list \<Rightarrow> int \<Rightarrow> py_error + quality" where
  "draw_ui_quality ping_history window_size =
     bind_sum (compute_recent_stats ping_history window_size)
       (\<lambda>st. Inr (quality_label st window_size))"

definition SHORT_WINDOW_SIZE :: int where "SHORT_WINDOW_SIZE = 10"
definition LONG_WINDOW_SIZE :: int where "LONG_WINDOW_SIZE = 600"

text \<open>
  The alert line of \<^verbatim>\<open>draw_ui\<close>: the value of \<^verbatim>\<open>alert_text\<close> after the
  \<^verbatim>\<open>if\<close>/\<^verbatim>\<open>elif\<close> over the statistics of the short window (the empty text is
  \<open>NO_ALERT\<close>). The source evaluates it when the alert row lies on the screen.
\<close>

datatype alert = NO_ALERT | ALERT_DELAY_SPIKE | ALERT_HIGH_LOSS

definition alert_text :: "recent_stats \<Rightarrow> alert" where
  "alert_text st =
     (case st of
        (short_loss_pct, short_avg_ping, short_count, short_lost,
         short_min_ping, short_max_ping, unused) \<Rightarrow>
        if short_count \<ge> max 5 (SHORT_WINDOW_SIZE div 2)
           \<and> short_avg_ping \<noteq> None
           \<and> short_max_ping \<noteq> None
           \<and> the short_max_ping > 3 * the short_avg_ping
           \<and> (the short_max_ping - the short_avg_ping) > 100
        then ALERT_DELAY_SPIKE
        else if short_count \<ge> max 5 (SHORT_WINDOW_SIZE div 2) \<and> short_loss_pct \<ge> 10
        then ALERT_HIGH_LOSS
        else NO_ALERT)"

definition draw_ui_alert :: "rat option list \<Rightarrow> py_error + alert" where
  "draw_ui_alert ping_history =
     bind_sum (compute_recent_stats ping_history SHORT_WINDOW_SIZE)
       (\<lambda>st. Inr (alert_text st))"

section \<open>The measurement state\<close>

definition PING_HISTORY_LENGTH :: nat where "PING_HISTORY_LENGTH = 300"
definition LOSS_HISTORY_LENGTH :: nat where "LOSS_HISTORY_LENGTH = 300"
definition MIN_WINDOW_SIZE :: int where "MIN_WINDOW_SIZE = 10"
definition DEFAULT_WINDOW_SIZE :: int where "DEFAULT_WINDOW_SIZE = 60"

text \<open>
  What \<^verbatim>\<open>build_traceroute_summary\<close> hands to the text template: the hop count, the
  largest delay, and the hops that timed out (none, or the list that the source joins
  with commas).
\<close>

datatype timeout_info = TRACE_TIMEOUT_INFO_NONE | TRACE_TIMEOUT_INFO_SOME "int list"

record trace_summary =
  summary_hops :: int
  summary_max_ms :: rat
  summary_timeout_info :: timeout_info

text \<open>
  The error messages of the trace worker: the source stores the formatted text, the
  embedding keeps which message it is, with the value formatted into it (the
  \<^verbatim>\<open>repr\<close> of an exception, or the exit code).
\<close>

datatype trace_error =
  ErrorStartingTraceroute string
| TracerouteTimedOut
| TracerouteExitedWithCode int
| ErrorRunningTraceroute string

text \<open>
  The fields of \<^verbatim>\<open>MonitorState\<close>. The lock is not a field of the embedding: every
  operation below is one critical section of the source and acts on the state as a whole.
\<close>

record MonitorState =
  target_host :: string
  running :: bool
  monitoring :: bool
  show_help :: bool
  show_traceroute_full :: bool
  traceroute_scroll :: int
  show_controls :: bool
  total_sent :: int
  total_recv :: int
  last_ping_ms :: "rat option"
  total_success :: int
  success_rtt_sum :: rat
  min_rtt_all :: "rat option"
  max_rtt_all :: "rat option"
  last_success_rtt_all :: "rat option"
  jitter_sum_all :: rat
  jitter_count_all :: int
  ping_history :: "rat option list"
  loss_history :: "rat list"
  window_size :: int
  traceroute_lines :: "string list"
  traceroute_running :: bool
  last_traceroute_error :: "trace_error option"
  traceroute_summary :: "trace_summary option"
  last_traceroute_ts :: "rat option"

text \<open>\<^verbatim>\<open>MonitorState.__init__\<close>.\<close>

definition init_state :: "string \<Rightarrow> MonitorState" where
  "init_state host =
     \<lparr> target_host = host,
       running = True,
       monitoring = True,
       show_help = False,
       show_traceroute_full = False,
       traceroute_scroll = 0,
       show_controls = False,
       total_sent = 0,
       total_recv = 0,
       last_ping_ms = None,
       total_success = 0,
       success_rtt_sum = 0,
       min_rtt_all = None,
       max_rtt_all = None,
       last_success_rtt_all = None,
       jitter_sum_all = 0,
       jitter_count_all = 0,
       ping_history = [],
       loss_history = [],
       window_size = DEFAULT_WINDOW_SIZE,
       traceroute_lines = [],
       traceroute_running = False,
       last_traceroute_error = None,
       traceroute_summary = None,
       last_traceroute_ts = None \<rparr>"

text \<open>
  \<^verbatim>\<open>deque(maxlen=n).append(x)\<close>: the new element goes to the right end, and elements
  leave at the left end while the length exceeds \<^verbatim>\<open>n\<close>.
\<close>

definition deque_append :: "nat \<Rightarrow> 'a list \<Rightarrow> 'a \<Rightarrow> 'a list" where
  "deque_append maxlen xs x = (let ys = xs @ [x] in drop (length ys - maxlen) ys)"

section \<open>The ping sampler\<close>

text \<open>
  The update of the lifetime aggregates for a numeric round-trip time (the body of
  \<^verbatim>\<open>if rtt is not None\<close> in \<^verbatim>\<open>ping_worker\<close>).
\<close>

definition update_rtt_stats :: "MonitorState \<Rightarrow> rat \<Rightarrow> MonitorState" where
  "update_rtt_stats state rtt =
     (let s1 =
            (if total_success state = 0
             then state\<lparr>min_rtt_all := Some rtt, max_rtt_all := Some rtt\<rparr>
             else
               let a = (if (case min_rtt_all state of None \<Rightarrow> True | Some m \<Rightarrow> rtt < m)
                        then state\<lparr>min_rtt_all := Some rtt\<rparr> else state)
               in (if (case max_rtt_all a of None \<Rightarrow> True | Some m \<Rightarrow> rtt > m)
                   then a\<lparr>max_rtt_all := Some rtt\<rparr> else a));
          s2 =
            (case last_success_rtt_all s1 of
               None \<Rightarrow> s1
             | Some prev \<Rightarrow>
                 s1\<lparr>jitter_sum_all := jitter_sum_all s1 + \<bar>rtt - prev\<bar>,
                    jitter_count_all := jitter_count_all s1 + 1\<rparr>);
          s3 = s2\<lparr>last_success_rtt_all := Some rtt\<rparr>
      in s3\<lparr>success_rtt_sum := success_rtt_sum s3 + rtt,
            total_success := total_success s3 + 1\<rparr>)"

text \<open>
  The critical section of \<^verbatim>\<open>ping_worker\<close> that commits the result
  \<^verbatim>\<open>(success, rtt)\<close> of \<^verbatim>\<open>run_ping\<close>. \<^verbatim>\<open>run_ping\<close> returns \<^verbatim>\<open>(False, None)\<close> for a
  failed probe, \<^verbatim>\<open>(True, None)\<close> for a probe that succeeded with no time parsed, and
  \<^verbatim>\<open>(True, rtt)\<close> otherwise.
\<close>

definition ping_commit :: "MonitorState \<Rightarrow> bool \<Rightarrow> rat option \<Rightarrow> MonitorState" where
  "ping_commit state success rtt =
     (let s1 = state\<lparr>total_sent := total_sent state + 1\<rparr>;
          s2 =
            (if success then
               (let a = s1\<lparr>total_recv := total_recv s1 + 1, last_ping_ms := rtt\<rparr>
                in case rtt of None \<Rightarrow> a | Some r \<Rightarrow> update_rtt_stats a r)
             else s1\<lparr>last_ping_ms := None\<rparr>);
          sent = total_sent s2;
          recv = total_recv s2;
          overall_loss_pct =
            (if sent = 0 then 0 else (1 - (of_int recv / of_int sent)) * 100)
      in s2\<lparr>ping_history :=
               deque_append PING_HISTORY_LENGTH (ping_history s2)
                 (if success then rtt else None),
             loss_history :=
               deque_append LOSS_HISTORY_LENGTH (loss_history s2) overall_loss_pct\<rparr>)"

text \<open>The three outcomes of a probe, as the pairs that \<^verbatim>\<open>run_ping\<close> returns.\<close>

datatype outcome = Success rat | SuccessNoRtt | Failure

fun outcome_success :: "outcome \<Rightarrow> bool" where
  "outcome_success (Success r) = True"
| "outcome_success SuccessNoRtt = True"
| "outcome_success Failure = False"

fun outcome_rtt :: "outcome \<Rightarrow> rat option" where
  "outcome_rtt (Success r) = Some r"
| "outcome_rtt SuccessNoRtt = None"
| "outcome_rtt Failure = None"

definition ping_cycle :: "MonitorState \<Rightarrow> outcome \<Rightarrow> MonitorState" where
  "ping_cycle state out = ping_commit state (outcome_success out) (outcome_rtt out)"

section \<open>The commands of the main loop\<close>

definition py_ord :: "char \<Rightarrow> int" where
  "py_ord c = of_char c"

text \<open>The key codes of the curses library for the arrow keys.\<close>

definition KEY_DOWN :: int where "KEY_DOWN = 258"
definition KEY_UP :: int where "KEY_UP = 259"

text \<open>
  One turn of the loop of \<^verbatim>\<open>main\<close> after \<^verbatim>\<open>getch\<close> returned \<^verbatim>\<open>ch\<close>. The keys
  \<^verbatim>\<open>t\<close> (which starts a trace worker when none runs) and \<^verbatim>\<open>l\<close> (which changes the
  language, a global outside the state) leave the state as it is.
\<close>

definition handle_key :: "MonitorState \<Rightarrow> int \<Rightarrow> MonitorState" where
  "handle_key state ch =
     (if ch = - 1 then state
      else if ch = py_ord CHR ''q'' \<or> ch = py_ord CHR ''Q'' then state\<lparr>running := False\<rparr>
      else if ch = py_ord CHR ''p'' \<or> ch = py_ord CHR ''P'' then state\<lparr>monitoring := False\<rparr>
      else if ch = py_ord CHR ''r'' \<or> ch = py_ord CHR ''R'' then state\<lparr>monitoring := True\<rparr>
      else if ch = py_ord CHR ''t'' \<or> ch = py_ord CHR ''T'' then state
      else if ch = py_ord CHR ''h'' \<or> ch = py_ord CHR ''H''
        then state\<lparr>show_help := \<not> show_help state\<rparr>
      else if ch = py_ord CHR ''f'' \<or> ch = py_ord CHR ''F''
        then state\<lparr>show_traceroute_full := \<not> show_traceroute_full state,
                   traceroute_scroll := 0\<rparr>
      else if ch = KEY_UP
        then state\<lparr>traceroute_scroll := max 0 (traceroute_scroll state - 1)\<rparr>
      else if ch = KEY_DOWN
        then state\<lparr>traceroute_scroll := traceroute_scroll state + 1\<rparr>
      else if ch = py_ord CHR ''l'' \<or> ch = py_ord CHR ''L'' then state
      else if ch = py_ord CHR ''k'' \<or> ch = py_ord CHR ''K''
        then state\<lparr>show_controls := \<not> show_controls state\<rparr>
      else if ch = py_ord CHR ''+''
        then (let new_size = window_size state + 10
              in state\<lparr>window_size := min new_size (int PING_HISTORY_LENGTH)\<rparr>)
      else if ch = py_ord CHR ''-''
        then (let new_size = window_size state - 10;
                  new_size = (if new_size < MIN_WINDOW_SIZE then MIN_WINDOW_SIZE else new_size)
              in state\<lparr>window_size := new_size\<rparr>)
      else state)"

section \<open>The path-trace parser\<close>

text \<open>
  The character classes of the two regular expressions. On text, \<^verbatim>\<open>\s\<close>,
  \<^verbatim>\<open>str.strip\<close> and \<^verbatim>\<open>str.split\<close> share one notion of white space; below code point
  256 it is the characters 9 to 13, 28 to 32, 133 and 160. \<^verbatim>\<open>\d\<close> is a decimal digit,
  below code point 256 the characters \<^verbatim>\<open>0\<close> to \<^verbatim>\<open>9\<close>.
\<close>

definition is_space :: "char \<Rightarrow> bool" where
  "is_space c =
     (let n = (of_char c :: nat)
      in (9 \<le> n \<and> n \<le> 13) \<or> (28 \<le> n \<and> n \<le> 32) \<or> n = 133 \<or> n = 160)"

definition is_digit :: "char \<Rightarrow> bool" where
  "is_digit c = (let n = (of_char c :: nat) in 48 \<le> n \<and> n \<le> 57)"

text \<open>The class \<^verbatim>\<open>[\d.]\<close>.\<close>

definition is_numch :: "char \<Rightarrow> bool" where
  "is_numch c = (is_digit c \<or> c = CHR ''.'')"

text \<open>\<^verbatim>\<open>int(s)\<close> for a text of decimal digits.\<close>

definition py_int :: "string \<Rightarrow> int" where
  "py_int s = foldl (\<lambda>a c. 10 * a + (of_char c - 48)) 0 s"

text \<open>
  \<^verbatim>\<open>float(s)\<close> for a text of digits and dots, which is all that group 1 of
  \<^verbatim>\<open>([\d.]+)\s*ms\<close> can hold: digits with at most one dot and at least one digit are
  accepted, anything else is the \<^verbatim>\<open>ValueError\<close> of the source (\<^const>\<open>None\<close>).
\<close>

definition py_float :: "string \<Rightarrow> rat option" where
  "py_float s =
     (let ip = takeWhile is_digit s;
          r = dropWhile is_digit s
      in if r = [] then (if ip = [] then None else Some (of_int (py_int ip)))
         else if hd r = CHR ''.'' \<and> list_all is_digit (tl r) \<and> (ip \<noteq> [] \<or> tl r \<noteq> [])
         then Some (of_int (py_int ip) + of_int (py_int (tl r)) / 10 ^ length (tl r))
         else None)"

text \<open>
  \<^verbatim>\<open>hop_re.match(line)\<close> for \<^verbatim>\<open>^\s*(\d+)\s+\<close>: optional white space, then digits
  followed by at least one white space. The result is group 1 and the text from
  \<^verbatim>\<open>m.end()\<close> on.
\<close>

definition hop_match :: "string \<Rightarrow> (string \<times> string) option" where
  "hop_match line =
     (let a = dropWhile is_space line;
          ds = takeWhile is_digit a;
          b = dropWhile is_digit a
      in if ds \<noteq> [] \<and> b \<noteq> [] \<and> is_space (hd b)
         then Some (ds, dropWhile is_space b) else None)"

text \<open>
  Group 1 of every match of \<^verbatim>\<open>ms_re.finditer(line)\<close> for \<^verbatim>\<open>([\d.]+)\s*ms\<close>, from
  left to right: a longest run of digits and dots, optional white space, then
  \<^verbatim>\<open>ms\<close>. The search resumes behind a match, and one character further after a
  position where no match starts.
\<close>

function ms_finditer :: "string \<Rightarrow> string list" where
  "ms_finditer [] = []"
| "ms_finditer (c # cs) =
     (if is_numch c then
        (let rest = dropWhile is_space (dropWhile is_numch cs)
         in if take 2 rest = ''ms''
            then (c # takeWhile is_numch cs) # ms_finditer (drop 2 rest)
            else ms_finditer cs)
      else ms_finditer cs)"
  by pat_completeness auto
termination
proof (relation "measure length")
  fix c :: char and cs rest :: string
  assume "rest = dropWhile is_space (dropWhile is_numch cs)"
  then have "length rest \<le> length cs"
    using length_dropWhile_le [of is_space "dropWhile is_numch cs"]
      length_dropWhile_le [of is_numch cs] by simp
  then show "(drop 2 rest, c # cs) \<in> measure length" by simp
qed simp_all

text \<open>The values of the matches that \<^verbatim>\<open>float\<close> accepts, in order.\<close>

definition line_rtts :: "string \<Rightarrow> rat list" where
  "line_rtts line = List.map_filter py_float (ms_finditer line)"

text \<open>
  The body of the loop of \<^verbatim>\<open>build_traceroute_summary\<close> for one line, on
  \<^verbatim>\<open>(hop_numbers, timeout_hops, max_ms)\<close>.
\<close>

definition update_max_ms :: "rat option \<Rightarrow> rat \<Rightarrow> rat option" where
  "update_max_ms max_ms val =
     (if max_ms = None \<or> val > the max_ms then Some val else max_ms)"

definition summary_step ::
  "int list \<times> int list \<times> rat option \<Rightarrow> string \<Rightarrow> int list \<times> int list \<times> rat option" where
  "summary_step acc line =
     (case acc of (hop_numbers, timeout_hops, max_ms) \<Rightarrow>
        (case hop_match line of
           None \<Rightarrow> acc
         | Some (ds, after) \<Rightarrow>
             let hop = py_int ds
             in (hop_numbers @ [hop],
                 (if CHR ''*'' \<in> set line then timeout_hops @ [hop] else timeout_hops),
                 foldl update_max_ms max_ms (line_rtts line))))"

text \<open>
  \<^verbatim>\<open>build_traceroute_summary\<close>. The loop runs over \<^verbatim>\<open>lines[1:]\<close>: the first line is
  skipped as a potential header. \<^verbatim>\<open>max(hop_numbers)\<close> is taken of a list that the
  guard before it has found non-empty.
\<close>

definition build_traceroute_summary :: "string list \<Rightarrow> trace_summary option" where
  "build_traceroute_summary lines =
     (if lines = [] then None
      else
        (case foldl summary_step ([], [], None) (drop 1 lines) of
           (hop_numbers, timeout_hops, max_ms) \<Rightarrow>
             if hop_numbers = [] then None
             else
               Some \<lparr> summary_hops = fold max (tl hop_numbers) (hd hop_numbers),
                      summary_max_ms = (case max_ms of None \<Rightarrow> 0 | Some m \<Rightarrow> m),
                      summary_timeout_info =
                        (if timeout_hops = [] then TRACE_TIMEOUT_INFO_NONE
                         else TRACE_TIMEOUT_INFO_SOME timeout_hops) \<rparr>))"

text \<open>\<^verbatim>\<open>s.strip()\<close>, the first element of \<^verbatim>\<open>s.split()\<close>, and \<^verbatim>\<open>sub in s\<close>.\<close>

definition py_strip :: "string \<Rightarrow> string" where
  "py_strip s = rev (dropWhile is_space (rev (dropWhile is_space s)))"

definition split_first :: "string \<Rightarrow> string option" where
  "split_first s =
     (let a = dropWhile is_space s
      in if a = [] then None else Some (takeWhile (\<lambda>c. \<not> is_space c) a))"

fun py_in :: "string \<Rightarrow> string \<Rightarrow> bool" where
  "py_in sub [] = (sub = [])"
| "py_in sub (c # cs) = (take (length sub) (c # cs) = sub \<or> py_in sub cs)"

text \<open>
  A row of the table of \<^verbatim>\<open>build_traceroute_table\<close>. The source formats a row as
  text; the embedding keeps the hop number, the host cell (cut and padded to 40
  characters by \<^verbatim>\<open>{host_ip:<40.40}\<close>) and the content of the last cell before the
  numbers are printed with one decimal.
\<close>

datatype rtt_text = RttTimeout | RttMinAvgMax rat rat rat

datatype table_row = HeaderRow | HopRow int string rtt_text

definition format_40 :: "string \<Rightarrow> string" where
  "format_40 s = take 40 s @ replicate (40 - length (take 40 s)) CHR '' ''"

definition host_ip_of :: "string \<Rightarrow> string" where
  "host_ip_of rest =
     (let (host, ip) =
            (if CHR ''('' \<in> set rest \<and> CHR '')'' \<in> set rest then
               (let before_part = takeWhile (\<lambda>c. c \<noteq> CHR ''('') rest;
                    after_part = tl (dropWhile (\<lambda>c. c \<noteq> CHR ''('') rest)
                in ((if py_strip before_part = [] then ''?'' else py_strip before_part),
                    py_strip (takeWhile (\<lambda>c. c \<noteq> CHR '')'') after_part)))
             else
               (case split_first rest of None \<Rightarrow> (''?'', []) | Some p \<Rightarrow> (p, [])))
      in if ip \<noteq> [] \<and> \<not> py_in ip host then host @ '' ('' @ ip @ '')'' else host)"

definition rtt_text_of :: "rat list \<Rightarrow> rtt_text" where
  "rtt_text_of rtts =
     (if rtts \<noteq> [] then
        RttMinAvgMax (fold min (tl rtts) (hd rtts))
          (sum_list rtts / of_nat (length rtts))
          (fold max (tl rtts) (hd rtts))
      else RttTimeout)"

text \<open>The body of the loop of \<^verbatim>\<open>build_traceroute_table\<close> for one line.\<close>

definition hop_row :: "string \<Rightarrow> table_row option" where
  "hop_row line =
     (case hop_match line of
        None \<Rightarrow> None
      | Some (ds, after) \<Rightarrow>
          Some (HopRow (py_int ds) (format_40 (host_ip_of (py_strip after)))
                  (rtt_text_of (line_rtts line))))"

definition build_traceroute_table :: "string list \<Rightarrow> table_row list" where
  "build_traceroute_table lines =
     (if lines = [] then [] else HeaderRow # List.map_filter hop_row lines)"

section \<open>The trace sampler\<close>

text \<open>
  The critical sections of \<^verbatim>\<open>traceroute_worker\<close>. The first one is the entry guard
  with the reset of the session; it yields \<^const>\<open>None\<close> when the worker returns at the
  guard.
\<close>

definition trace_begin :: "MonitorState \<Rightarrow> rat \<Rightarrow> MonitorState option" where
  "trace_begin state now =
     (if traceroute_running state then None
      else Some (state\<lparr>traceroute_running := True,
                       last_traceroute_error := None,
                       traceroute_lines := [],
                       traceroute_summary := None,
                       last_traceroute_ts := Some now\<rparr>))"

definition trace_launch_failed :: "string \<Rightarrow> MonitorState \<Rightarrow> MonitorState" where
  "trace_launch_failed repr_e state =
     state\<lparr>traceroute_lines := [],
           last_traceroute_error := Some (ErrorStartingTraceroute repr_e),
           traceroute_running := False\<rparr>"

definition trace_stream :: "string list \<Rightarrow> MonitorState \<Rightarrow> MonitorState" where
  "trace_stream lines state = state\<lparr>traceroute_lines := lines\<rparr>"

definition trace_finish ::
  "string list \<Rightarrow> trace_error option \<Rightarrow> trace_summary option \<Rightarrow> rat \<Rightarrow>
   MonitorState \<Rightarrow> MonitorState" where
  "trace_finish lines error_msg summary now state =
     state\<lparr>traceroute_lines := lines,
           last_traceroute_error := error_msg,
           traceroute_running := False,
           traceroute_summary := summary,
           last_traceroute_ts := Some now\<rparr>"

text \<open>
  What the environment does during one run of the worker: the clock at the reset, the
  \<^verbatim>\<open>repr\<close> of the exception if \<^verbatim>\<open>Popen\<close> raised, the clock when the reading starts,
  the lines of the output each with the clock read after it, the \<^verbatim>\<open>repr\<close> of an
  exception that ended the reading (it counts when the loop did not leave through the
  300 second ceiling), the exit code (\<^const>\<open>None\<close> when the wait raised), and the
  clock at the end.
\<close>

record trace_run =
  run_reset_time :: rat
  run_popen_error :: "string option"
  run_start_time :: rat
  run_output :: "(string \<times> rat) list"
  run_read_error :: "string option"
  run_retcode :: "int option"
  run_end_time :: rat

definition rstrip_newline :: "string \<Rightarrow> string" where
  "rstrip_newline s = rev (dropWhile (\<lambda>c. c = CHR 0x0A) (rev s))"

text \<open>
  The reading loop: the successive values of \<^verbatim>\<open>lines\<close> (one per line read, each
  committed to the state) and whether the loop left through the 300 second ceiling.
\<close>

fun read_loop :: "rat \<Rightarrow> (string \<times> rat) list \<Rightarrow> string list \<Rightarrow> string list list \<times> bool" where
  "read_loop start_time [] lines = ([], False)"
| "read_loop start_time ((line, now) # later) lines =
     (let lines' = lines @ [rstrip_newline line]
      in if now - start_time > 300 then ([lines'], True)
         else (case read_loop start_time later lines' of
                 (snaps, timed_out) \<Rightarrow> (lines' # snaps, timed_out)))"

text \<open>
  The critical sections that a run performs after the entry guard let it pass, in
  order.
\<close>

definition trace_actions :: "trace_run \<Rightarrow> (MonitorState \<Rightarrow> MonitorState) list" where
  "trace_actions run =
     (case run_popen_error run of
        Some repr_e \<Rightarrow> [trace_launch_failed repr_e]
      | None \<Rightarrow>
          (case read_loop (run_start_time run) (run_output run) [] of
             (snaps, timed_out) \<Rightarrow>
               let lines = (if snaps = [] then [] else last snaps);
                   error_msg =
                     (if timed_out then Some TracerouteTimedOut
                      else (case run_read_error run of
                              Some repr_e \<Rightarrow> Some (ErrorRunningTraceroute repr_e)
                            | None \<Rightarrow>
                                (case run_retcode run of
                                   None \<Rightarrow> None
                                 | Some rc \<Rightarrow>
                                     if rc \<noteq> 0 then Some (TracerouteExitedWithCode rc)
                                     else None)));
                   summary =
                     (if error_msg = None then build_traceroute_summary lines else None)
               in map trace_stream snaps
                  @ [trace_finish lines error_msg summary (run_end_time run)]))"

text \<open>\<^verbatim>\<open>traceroute_worker\<close>, run to its end with no other thread in between.\<close>

definition traceroute_worker :: "MonitorState \<Rightarrow> trace_run \<Rightarrow> MonitorState" where
  "traceroute_worker state run =
     (case trace_begin state (run_reset_time run) of
        None \<Rightarrow> state
      | Some s \<Rightarrow> fold (\<lambda>act st. act st) (trace_actions run) s)"

section \<open>The operations on the shared state\<close>

text \<open>
  One step of the system: a critical section of one of the three threads, with any
  values from the environment.
\<close>

inductive step :: "MonitorState \<Rightarrow> MonitorState \<Rightarrow> bool" where
  step_ping: "step s (ping_commit s success rtt)"
| step_key: "step s (handle_key s ch)"
| step_trace_begin: "trace_begin s now = Some s' \<Longrightarrow> step s s'"
| step_trace_launch_failed: "step s (trace_launch_failed repr_e s)"
| step_trace_stream: "step s (trace_stream lines s)"
| step_trace_finish: "step s (trace_finish lines error_msg summary now s)"

section \<open>Properties of the windowed statistics\<close>

lemma successes_present:
  "map the (filter (\<lambda>v. \<exists>y. v = Some y) xs) = present_values xs"
  by (induction xs) (auto simp: present_values_def)

lemma length_present_absent:
  "length (present_values xs) + absent_count xs = length xs"
  by (induction xs) (auto simp: present_values_def absent_count_def split: option.splits)

lemma deltas_of_step:
  "deltas_of (x # y # rest) = \<bar>y - x\<bar> # deltas_of (y # rest)"
proof -
  have "[1 ..< length (x # y # rest)] = 1 # map Suc [1 ..< length (y # rest)]"
    by (simp add: upt_conv_Cons map_Suc_upt del: upt_Suc)
  then show ?thesis
    by (simp add: deltas_of_def comp_def del: upt_Suc)
qed

lemma deltas_of_consecutive: "deltas_of xs = consecutive_deltas xs"
proof (induction xs rule: consecutive_deltas.induct)
  case (1 x y rest)
  then show ?case by (simp add: deltas_of_step)
qed (simp_all add: deltas_of_def)

lemma length_consecutive_deltas: "length (consecutive_deltas xs) = length xs - 1"
  by (induction xs rule: consecutive_deltas.induct) simp_all

lemma py_min_Min: "xs \<noteq> [] \<Longrightarrow> py_min xs = Inr (Min (set xs))"
  using Min.set_eq_fold [of "hd xs" "tl xs"] by (cases xs) (simp_all add: py_min_def)

lemma py_max_Max: "xs \<noteq> [] \<Longrightarrow> py_max xs = Inr (Max (set xs))"
  using Max.set_eq_fold [of "hd xs" "tl xs"] by (cases xs) (simp_all add: py_max_def)

lemma length_slice_last:
  "0 < n \<Longrightarrow> length (slice_last xs n) = min (nat n) (length xs)"
  by (simp add: slice_last_def)

lemma slice_last_Nil: "0 < n \<Longrightarrow> slice_last xs n = [] \<longleftrightarrow> xs = []"
  by (cases xs) (auto simp: slice_last_def)

lemma slice_last_min:
  "slice_last xs n = drop (length xs - min (nat n) (length xs)) xs"
  by (simp add: slice_last_def min_def)

lemma compute_recent_stats_nonpos:
  "w \<le> 0 \<Longrightarrow>
   compute_recent_stats h w = Inr (0, None, 0, 0, None, None, None)"
  by (simp add: compute_recent_stats_def)

lemma compute_recent_stats_no_entries:
  "slice_last h w = [] \<Longrightarrow>
   compute_recent_stats h w = Inr (0, None, 0, 0, None, None, None)"
  by (simp add: compute_recent_stats_def)

lemma compute_recent_stats_char:
  assumes "0 < w" and "recent = slice_last h w" and "recent \<noteq> []"
    and "ps = present_values recent"
  shows "compute_recent_stats h w =
     Inr (100 * of_nat (absent_count recent) / of_nat (length recent),
          (if ps = [] then None else Some (mean ps)),
          int (length recent),
          int (absent_count recent),
          (if ps = [] then None else Some (Min (set ps))),
          (if ps = [] then None else Some (Max (set ps))),
          (if length ps < 2 then None else Some (mean (consecutive_deltas ps))))"
proof -
  have lost: "int (length recent) - int (length ps) = int (absent_count recent)"
    using length_present_absent [of recent] assms(4) by simp
  have len: "length recent \<noteq> 0" using assms(3) by simp
  show ?thesis
  proof (cases "ps = []")
    case True
    then show ?thesis
      using assms len lost
      by (simp add: compute_recent_stats_def Let_def successes_present bind_sum_def
          py_truediv_def)
  next
    case False
    note ne = this
    show ?thesis
    proof (cases "length ps < 2")
      case True
      then show ?thesis
        using assms len lost ne
        by (simp add: compute_recent_stats_def Let_def successes_present bind_sum_def
          py_truediv_def py_min_Min py_max_Max mean_def)
    next
      case False
      then have "length (consecutive_deltas ps) \<noteq> 0"
        by (simp add: length_consecutive_deltas)
      then show ?thesis
        using assms len lost ne False
        by (simp add: compute_recent_stats_def Let_def successes_present bind_sum_def
          py_truediv_def py_min_Min py_max_Max mean_def deltas_of_consecutive)
    qed
  qed
qed

lemma compute_recent_stats_Inr: "\<exists>st. compute_recent_stats h w = Inr st"
proof (cases "w \<le> 0 \<or> slice_last h w = []")
  case True
  then show ?thesis
    using compute_recent_stats_nonpos [of w h] compute_recent_stats_no_entries [of h w]
    by auto
next
  case False
  then show ?thesis
    using compute_recent_stats_char [of w "slice_last h w" h "present_values (slice_last h w)"]
    by simp
qed

lemma compute_recent_stats_count:
  assumes "0 < w" and "compute_recent_stats h w = Inr st"
  shows "stats_count st = min w (int (length h))"
proof (cases "slice_last h w = []")
  case True
  then have "h = []" using assms(1) by (simp add: slice_last_Nil)
  then show ?thesis
    using assms True compute_recent_stats_no_entries [of h w]
    by (auto simp: stats_count_def)
next
  case False
  then show ?thesis
    using assms compute_recent_stats_char [of w "slice_last h w" h "present_values (slice_last h w)"]
      length_slice_last [of w h]
    by (auto simp: stats_count_def)
qed

lemma compute_recent_stats_avg_max:
  assumes "compute_recent_stats h w = Inr st"
  shows "stats_avg st = None \<longleftrightarrow> stats_max st = None"
proof (cases "w \<le> 0 \<or> slice_last h w = []")
  case True
  then show ?thesis
    using assms compute_recent_stats_nonpos [of w h] compute_recent_stats_no_entries [of h w]
    by (auto simp: stats_avg_def stats_max_def)
next
  case False
  then show ?thesis
    using assms compute_recent_stats_char [of w "slice_last h w" h "present_values (slice_last h w)"]
    by (auto simp: stats_avg_def stats_max_def split: if_splits)
qed

text \<open>
  Claim C1. For a positive window \<open>W\<close>, \<^const>\<open>compute_recent_stats\<close> works on the most
  recent \<open>min W (length history)\<close> entries: the count is their number, the lost count
  the number of absent entries, the loss percentage \<open>100 * lost / count\<close> (0 for no
  entries), average, minimum and maximum are those of the present values (absent when
  there are none), and the jitter is the mean absolute difference of neighbouring present
  values in stored order (absent for fewer than two). On
  \<open>[20, None, 22, 21, None, 19]\<close> with \<open>W = 6\<close> the loss is \<open>2/6\<close> of 100, the average
  20.5, the minimum 19, the maximum 22 and the jitter \<open>5/3\<close>.
\<close>

theorem compute_recent_stats_windowed:
  assumes "0 < W"
    and "recent = drop (length history - min (nat W) (length history)) history"
    and "ps = present_values recent"
  shows "compute_recent_stats history W =
     Inr ((if recent = [] then 0
           else 100 * of_nat (absent_count recent) / of_nat (length recent)),
          (if ps = [] then None else Some (mean ps)),
          int (length recent),
          int (absent_count recent),
          (if ps = [] then None else Some (Min (set ps))),
          (if ps = [] then None else Some (Max (set ps))),
          (if length ps < 2 then None else Some (mean (consecutive_deltas ps))))
     \<and> compute_recent_stats [Some 20, None, Some 22, Some 21, None, Some 19] 6 =
         Inr (100 * (2 / 6), Some (41 / 2), 6, 2, Some 19, Some 22, Some (5 / 3))"
proof
  have rec: "recent = slice_last history W"
    using assms(2) by (simp add: slice_last_min)
  show "compute_recent_stats history W =
     Inr ((if recent = [] then 0
           else 100 * of_nat (absent_count recent) / of_nat (length recent)),
          (if ps = [] then None else Some (mean ps)),
          int (length recent),
          int (absent_count recent),
          (if ps = [] then None else Some (Min (set ps))),
          (if ps = [] then None else Some (Max (set ps))),
          (if length ps < 2 then None else Some (mean (consecutive_deltas ps))))"
  proof (cases "recent = []")
    case True
    then show ?thesis
      using rec assms(3) compute_recent_stats_no_entries [of history W]
      by (simp add: present_values_def absent_count_def)
  next
    case False
    then show ?thesis
      using compute_recent_stats_char [OF assms(1) rec False assms(3)] by simp
  qed
  show "compute_recent_stats [Some 20, None, Some 22, Some 21, None, Some 19] 6 =
         Inr (100 * (2 / 6), Some (41 / 2), 6, 2, Some 19, Some 22, Some (5 / 3))"
    by (simp add: compute_recent_stats_def slice_last_def Let_def bind_sum_def py_truediv_def
     py_min_def py_max_def deltas_of_def upt_conv_Cons)
qed

theorem compute_recent_stats_windowed_witness:
  "compute_recent_stats [None, Some 30, Some 10, None, Some 40] 4 =
     Inr (25, Some (80 / 3), 4, 1, Some 10, Some 40, Some 25)"
  using compute_recent_stats_windowed [of 4 "[Some 30, Some 10, None, Some 40]"
      "[None, Some 30, Some 10, None, Some 40]" "[30, 10, 40]"]
  by (simp add: present_values_def absent_count_def mean_def)

text \<open>
  Claim C10. \<^const>\<open>compute_recent_stats\<close> returns a value on every input: no division
  by zero and no \<^verbatim>\<open>min\<close> or \<^verbatim>\<open>max\<close> of an empty sequence is reached. For a window
  that is not positive, or when no entry is considered, the value is
  \<open>(0, None, 0, 0, None, None, None)\<close>; for a positive window the count is the length of
  the slice and never exceeds \<open>min window_size (length history)\<close>. The three divisors
  are the length of a slice found non-empty, the number of present values found
  positive, and the number of differences, which is positive for two or more values.
\<close>

theorem compute_recent_stats_total:
  "(\<exists>st. compute_recent_stats h w = Inr st)
   \<and> (1 < length successes \<longrightarrow> 0 < length (deltas_of successes))
   \<and> (w \<le> 0 \<or> slice_last h w = [] \<longrightarrow>
        compute_recent_stats h w = Inr (0, None, 0, 0, None, None, None))
   \<and> (0 < w \<longrightarrow>
        (\<forall>st. compute_recent_stats h w = Inr st \<longrightarrow>
           stats_count st = int (length (slice_last h w))
           \<and> stats_count st \<le> min w (int (length h))))"
  using compute_recent_stats_Inr [of h w] compute_recent_stats_nonpos [of w h]
    compute_recent_stats_no_entries [of h w] compute_recent_stats_count [of w h]
    length_slice_last [of w h]
  by (auto simp: deltas_of_def)

theorem compute_recent_stats_total_witness:
  "(\<exists>st. compute_recent_stats [Some 7, None] 0 = Inr st)
   \<and> compute_recent_stats [Some 7, None] 0 = Inr (0, None, 0, 0, None, None, None)
   \<and> compute_recent_stats [] 3 = Inr (0, None, 0, 0, None, None, None)
   \<and> (\<exists>st. compute_recent_stats [Some 7, None, Some 9] 2 = Inr st \<and> stats_count st \<le> 2)
   \<and> 0 < length (deltas_of [7, 9])"
  using compute_recent_stats_total [of "[Some 7, None]" 0 "[7, 9]"]
    compute_recent_stats_total [of "[]" 3 "[7, 9]"]
    compute_recent_stats_total [of "[Some 7, None, Some 9]" 2 "[7, 9]"]
  by (auto simp: slice_last_def)

section \<open>Properties of the shared state\<close>

lemma update_rtt_stats_counters:
  "total_sent (update_rtt_stats s r) = total_sent s"
  "total_recv (update_rtt_stats s r) = total_recv s"
  "last_ping_ms (update_rtt_stats s r) = last_ping_ms s"
  "ping_history (update_rtt_stats s r) = ping_history s"
  "loss_history (update_rtt_stats s r) = loss_history s"
  "window_size (update_rtt_stats s r) = window_size s"
  by (simp_all add: update_rtt_stats_def Let_def split: option.splits)

lemma ping_commit_total_sent: "total_sent (ping_commit s b r) = total_sent s + 1"
  by (simp add: ping_commit_def Let_def update_rtt_stats_counters split: option.splits)

lemma ping_commit_total_recv:
  "total_recv (ping_commit s b r) = total_recv s + (if b then 1 else 0)"
  by (simp add: ping_commit_def Let_def update_rtt_stats_counters split: option.splits)

lemma ping_commit_last_ping_ms:
  "last_ping_ms (ping_commit s b r) = (if b then r else None)"
  by (simp add: ping_commit_def Let_def update_rtt_stats_counters split: option.splits)

lemma ping_commit_window_size: "window_size (ping_commit s b r) = window_size s"
  by (simp add: ping_commit_def Let_def update_rtt_stats_counters split: option.splits)

lemma ping_commit_ping_history:
  "ping_history (ping_commit s b r) =
     deque_append PING_HISTORY_LENGTH (ping_history s) (if b then r else None)"
  by (simp add: ping_commit_def Let_def update_rtt_stats_counters split: option.splits)

lemma ping_commit_loss_history:
  "loss_history (ping_commit s b r) =
     deque_append LOSS_HISTORY_LENGTH (loss_history s)
       (if total_sent (ping_commit s b r) = 0 then 0
        else (1 - (of_int (total_recv (ping_commit s b r))
                   / of_int (total_sent (ping_commit s b r)))) * 100)"
  by (simp add: ping_commit_def Let_def update_rtt_stats_counters split: option.splits)

lemma ping_commit_no_rtt_aggregates:
  "min_rtt_all (ping_commit s b None) = min_rtt_all s"
  "max_rtt_all (ping_commit s b None) = max_rtt_all s"
  "success_rtt_sum (ping_commit s b None) = success_rtt_sum s"
  "total_success (ping_commit s b None) = total_success s"
  "jitter_sum_all (ping_commit s b None) = jitter_sum_all s"
  "jitter_count_all (ping_commit s b None) = jitter_count_all s"
  "last_success_rtt_all (ping_commit s b None) = last_success_rtt_all s"
  by (simp_all add: ping_commit_def Let_def)

lemma length_deque_append:
  "length xs \<le> n \<Longrightarrow> length (deque_append n xs x) \<le> n"
  by (simp add: deque_append_def Let_def)

lemma deque_append_room:
  "length xs < n \<Longrightarrow> deque_append n xs x = xs @ [x]"
  by (simp add: deque_append_def Let_def)

lemma deque_append_full:
  "length xs = n \<Longrightarrow> 0 < n \<Longrightarrow> deque_append n xs x = tl xs @ [x]"
  by (cases xs) (simp_all add: deque_append_def Let_def)

lemma deque_append_last:
  "deque_append n (drop (length xs - n) xs) x = drop (length (xs @ [x]) - n) (xs @ [x])"
  by (cases "length xs < n") (auto simp: deque_append_def Let_def Suc_diff_le)


lemma handle_key_unchanged:
  "total_sent (handle_key s ch) = total_sent s"
  "total_recv (handle_key s ch) = total_recv s"
  "ping_history (handle_key s ch) = ping_history s"
  "loss_history (handle_key s ch) = loss_history s"
  by (simp_all add: handle_key_def Let_def)

lemma py_ord_plus_minus: "py_ord CHR ''+'' = 43" "py_ord CHR ''-'' = 45"
  by (simp_all add: py_ord_def)

lemma handle_key_plus:
  "window_size (handle_key s (py_ord CHR ''+'')) = min (window_size s + 10) 300"
  by (simp add: handle_key_def py_ord_def Let_def PING_HISTORY_LENGTH_def KEY_UP_def KEY_DOWN_def)

lemma handle_key_minus:
  "window_size (handle_key s (py_ord CHR ''-'')) = max (window_size s - 10) 10"
  by (simp add: handle_key_def py_ord_def Let_def MIN_WINDOW_SIZE_def KEY_UP_def KEY_DOWN_def
      max_def)

lemma handle_key_window_range:
  "10 \<le> window_size s \<Longrightarrow> window_size s \<le> 300 \<Longrightarrow>
   10 \<le> window_size (handle_key s ch) \<and> window_size (handle_key s ch) \<le> 300"
  by (simp add: handle_key_def Let_def MIN_WINDOW_SIZE_def PING_HISTORY_LENGTH_def)

lemma trace_begin_unchanged:
  assumes "trace_begin s now = Some s'"
  shows "total_sent s' = total_sent s" "total_recv s' = total_recv s"
    "ping_history s' = ping_history s" "loss_history s' = loss_history s"
    "window_size s' = window_size s"
  using assms by (auto simp: trace_begin_def split: if_splits)

lemma trace_ops_unchanged:
  "total_sent (trace_launch_failed e s) = total_sent s"
  "total_recv (trace_launch_failed e s) = total_recv s"
  "ping_history (trace_launch_failed e s) = ping_history s"
  "loss_history (trace_launch_failed e s) = loss_history s"
  "window_size (trace_launch_failed e s) = window_size s"
  "total_sent (trace_stream ls s) = total_sent s"
  "total_recv (trace_stream ls s) = total_recv s"
  "ping_history (trace_stream ls s) = ping_history s"
  "loss_history (trace_stream ls s) = loss_history s"
  "window_size (trace_stream ls s) = window_size s"
  "total_sent (trace_finish ls err sm now s) = total_sent s"
  "total_recv (trace_finish ls err sm now s) = total_recv s"
  "ping_history (trace_finish ls err sm now s) = ping_history s"
  "loss_history (trace_finish ls err sm now s) = loss_history s"
  "window_size (trace_finish ls err sm now s) = window_size s"
  by (simp_all add: trace_launch_failed_def trace_stream_def trace_finish_def)

lemma step_counters:
  assumes "step s s'"
  shows "total_sent s \<le> total_sent s'" and "total_recv s \<le> total_recv s'"
    and "total_recv s \<le> total_sent s \<Longrightarrow> total_recv s' \<le> total_sent s'"
  using assms
  by (induction rule: step.induct)
     (simp_all add: ping_commit_total_sent ping_commit_total_recv handle_key_unchanged
        trace_begin_unchanged trace_ops_unchanged)

lemma steps_counters_mono:
  assumes "step\<^sup>*\<^sup>* s s'"
  shows "total_sent s \<le> total_sent s' \<and> total_recv s \<le> total_recv s'"
  using assms
proof (induction rule: rtranclp_induct)
  case base
  show ?case by simp
next
  case (step y z)
  then show ?case using step_counters(1,2) [of y z] by linarith
qed

lemma steps_counters_inv:
  assumes "step\<^sup>*\<^sup>* s s'" and "total_recv s \<le> total_sent s"
  shows "total_recv s' \<le> total_sent s'"
  using assms
  by (induction rule: rtranclp_induct) (simp_all add: step_counters(3))

lemma step_window:
  assumes "step s s'" and "10 \<le> window_size s" and "window_size s \<le> 300"
  shows "10 \<le> window_size s' \<and> window_size s' \<le> 300"
  using assms
  by (induction rule: step.induct)
     (simp_all add: ping_commit_window_size handle_key_window_range
        trace_begin_unchanged trace_ops_unchanged)

lemma steps_window:
  assumes "step\<^sup>*\<^sup>* s s'" and "10 \<le> window_size s" and "window_size s \<le> 300"
  shows "10 \<le> window_size s' \<and> window_size s' \<le> 300"
  using assms
  by (induction rule: rtranclp_induct) (simp_all add: step_window)

lemma step_history:
  assumes "step s s'" and "length (ping_history s) \<le> 300" and "length (loss_history s) \<le> 300"
  shows "length (ping_history s') \<le> 300 \<and> length (loss_history s') \<le> 300"
  using assms
  by (induction rule: step.induct)
     (simp_all add: ping_commit_ping_history ping_commit_loss_history handle_key_unchanged
        trace_begin_unchanged trace_ops_unchanged length_deque_append
        PING_HISTORY_LENGTH_def LOSS_HISTORY_LENGTH_def)

lemma steps_history:
  assumes "step\<^sup>*\<^sup>* s s'" and "length (ping_history s) \<le> 300"
    and "length (loss_history s) \<le> 300"
  shows "length (ping_history s') \<le> 300 \<and> length (loss_history s') \<le> 300"
  using assms
  by (induction rule: rtranclp_induct) (simp_all add: step_history)

lemma init_state_fields:
  "total_sent (init_state host) = 0" "total_recv (init_state host) = 0"
  "window_size (init_state host) = 60" "ping_history (init_state host) = []"
  "loss_history (init_state host) = []" "traceroute_running (init_state host) = False"
  by (simp_all add: init_state_def DEFAULT_WINDOW_SIZE_def)

lemma ping_history_foldl:
  assumes "length (ping_history s) \<le> 300"
  shows "ping_history (foldl (\<lambda>st (b, r). ping_commit st b r) s rs) =
     drop (length (ping_history s @ map (\<lambda>(b, r). if b then r else None) rs) - 300)
       (ping_history s @ map (\<lambda>(b, r). if b then r else None) rs)"
proof (induction rs rule: rev_induct)
  case Nil
  show ?case using assms by simp
next
  case (snoc x rs)
  obtain b r where x: "x = (b, r)" by (cases x)
  show ?case
    using deque_append_last [of 300 "ping_history s @ map (\<lambda>(b, r). if b then r else None) rs"
        "if b then r else None"]
    by (simp add: x snoc ping_commit_ping_history PING_HISTORY_LENGTH_def)
qed

lemma handle_key_window_even:
  "even (window_size s) \<Longrightarrow> even (window_size (handle_key s ch))"
  by (simp add: handle_key_def Let_def MIN_WINDOW_SIZE_def PING_HISTORY_LENGTH_def min_def)

lemma step_window_even:
  assumes "step s s'" and "even (window_size s)"
  shows "even (window_size s')"
  using assms
  by (induction rule: step.induct)
     (simp_all add: ping_commit_window_size handle_key_window_even
        trace_begin_unchanged trace_ops_unchanged)

lemma steps_window_even:
  assumes "step\<^sup>*\<^sup>* s s'" and "even (window_size s)"
  shows "even (window_size s')"
  using assms
  by (induction rule: rtranclp_induct) (simp_all add: step_window_even)

lemma half_window_readings:
  assumes "even w"
  shows "((of_int c :: rat) < max 20 (of_int w / 2)) = (c < max 20 (w div 2))"
proof -
  obtain k where k: "w = 2 * k" using assms by (auto elim: evenE)
  have "(of_int w :: rat) / 2 = of_int k" by (simp add: k)
  moreover have "w div 2 = k" by (simp add: k)
  moreover have "((of_int c :: rat) < max 20 (of_int k)) = (c < max 20 k)"
  proof -
    have "max (20 :: rat) (of_int k) = of_int (max 20 k)" by (simp add: max_def)
    then show ?thesis by (simp only: of_int_less_iff)
  qed
  ultimately show ?thesis by simp
qed

text \<open>
  Claim C3, as stated, fails: after a probe that succeeded with no time parsed, the
  last latency is absent although it held a value before.
\<close>

theorem ping_commit_last_latency_counterexample:
  "last_ping_ms (ping_cycle (init_state ''host'') (Success 5)) = Some 5
   \<and> last_ping_ms (ping_cycle (ping_cycle (init_state ''host'') (Success 5)) SuccessNoRtt) = None"
  by (simp add: ping_cycle_def ping_commit_last_ping_ms)

text \<open>
  Claim C3, amended. A ping cycle leaves the last latency absent after a failure and
  after a probe that succeeded with no time parsed alike (the source assigns it the
  absent time), and sets it to the time after a success with a time. A probe that
  succeeded with no time parsed still counts as sent and received, and leaves the
  lifetime minimum, maximum, sum, success count and both jitter accumulators as they
  were.
\<close>

theorem ping_commit_last_latency:
  "last_ping_ms (ping_cycle s Failure) = None
   \<and> last_ping_ms (ping_cycle s SuccessNoRtt) = None
   \<and> last_ping_ms (ping_cycle s (Success r)) = Some r
   \<and> total_sent (ping_cycle s SuccessNoRtt) = total_sent s + 1
   \<and> total_recv (ping_cycle s SuccessNoRtt) = total_recv s + 1
   \<and> min_rtt_all (ping_cycle s SuccessNoRtt) = min_rtt_all s
   \<and> max_rtt_all (ping_cycle s SuccessNoRtt) = max_rtt_all s
   \<and> success_rtt_sum (ping_cycle s SuccessNoRtt) = success_rtt_sum s
   \<and> total_success (ping_cycle s SuccessNoRtt) = total_success s
   \<and> jitter_sum_all (ping_cycle s SuccessNoRtt) = jitter_sum_all s
   \<and> jitter_count_all (ping_cycle s SuccessNoRtt) = jitter_count_all s
   \<and> last_success_rtt_all (ping_cycle s SuccessNoRtt) = last_success_rtt_all s"
  by (simp add: ping_cycle_def ping_commit_last_ping_ms ping_commit_total_sent
      ping_commit_total_recv ping_commit_no_rtt_aggregates)

theorem ping_commit_last_latency_witness:
  "last_ping_ms (ping_cycle (ping_cycle (init_state ''host'') (Success 5)) Failure) = None
   \<and> last_ping_ms (ping_cycle (ping_cycle (init_state ''host'') (Success 5)) SuccessNoRtt) = None
   \<and> total_recv (ping_cycle (ping_cycle (init_state ''host'') (Success 5)) SuccessNoRtt) = 2
   \<and> min_rtt_all (ping_cycle (ping_cycle (init_state ''host'') (Success 5)) SuccessNoRtt) = Some 5
   \<and> jitter_count_all (ping_cycle (ping_cycle (init_state ''host'') (Success 5)) SuccessNoRtt) = 0"
proof -
  have s1: "total_recv (ping_cycle (init_state ''host'') (Success 5)) = 1"
    "min_rtt_all (ping_cycle (init_state ''host'') (Success 5)) = Some 5"
    "jitter_count_all (ping_cycle (init_state ''host'') (Success 5)) = 0"
    by (simp_all add: ping_cycle_def ping_commit_def init_state_def update_rtt_stats_def Let_def)
  show ?thesis
    using ping_commit_last_latency [of "ping_cycle (init_state ''host'') (Success 5)" 0] s1
    by simp
qed

text \<open>
  Claim C5. While a trace session is running, the entry guard of the trace worker
  returns at once and the whole worker leaves the state equal to what it was, every
  field included; the key that requests a trace leaves it unchanged as well.
\<close>

theorem traceroute_single_flight:
  "traceroute_running s \<longrightarrow>
     trace_begin s now = None \<and> traceroute_worker s run = s
     \<and> handle_key s (py_ord CHR ''t'') = s \<and> handle_key s (py_ord CHR ''T'') = s"
  by (simp add: trace_begin_def traceroute_worker_def handle_key_def py_ord_def)

theorem traceroute_single_flight_witness:
  "traceroute_running (the (trace_begin (init_state ''host'') 7))
   \<and> traceroute_worker (the (trace_begin (init_state ''host'') 7))
        \<lparr>run_reset_time = 8, run_popen_error = None, run_start_time = 8,
          run_output = [(''1  10.0.0.1 (10.0.0.1)  1.2 ms  1.1 ms'', 9)],
          run_read_error = None, run_retcode = Some 0, run_end_time = 10\<rparr>
       = the (trace_begin (init_state ''host'') 7)"
proof -
  have r: "traceroute_running (the (trace_begin (init_state ''host'') 7))"
    by (simp add: trace_begin_def init_state_def)
  show ?thesis
    using r traceroute_single_flight [of "the (trace_begin (init_state ''host'') 7)" 8
        "\<lparr>run_reset_time = 8, run_popen_error = None, run_start_time = 8,
          run_output = [(''1  10.0.0.1 (10.0.0.1)  1.2 ms  1.1 ms'', 9)],
          run_read_error = None, run_retcode = Some 0, run_end_time = 10\<rparr>"]
    by simp
qed

text \<open>
  Claim C6. In every state reached from the initial one the received count is at most
  the sent count; every step of any thread preserves this; along any run both counters
  never decrease; a ping cycle adds one to the sent count, and one to the received count
  exactly when the probe succeeded.
\<close>

theorem counters_invariant:
  "(step\<^sup>*\<^sup>* (init_state host) s \<longrightarrow> total_recv s \<le> total_sent s)
   \<and> (step s s' \<longrightarrow> total_recv s \<le> total_sent s \<longrightarrow> total_recv s' \<le> total_sent s')
   \<and> (step\<^sup>*\<^sup>* s s' \<longrightarrow> total_sent s \<le> total_sent s' \<and> total_recv s \<le> total_recv s')
   \<and> total_sent (ping_commit s success rtt) = total_sent s + 1
   \<and> total_recv (ping_commit s success rtt) = total_recv s + (if success then 1 else 0)"
  using steps_counters_inv [of "init_state host" s] step_counters(3) [of s s']
    steps_counters_mono [of s s']
  by (simp add: init_state_fields ping_commit_total_sent ping_commit_total_recv)

theorem counters_invariant_witness:
  "total_recv (ping_commit (ping_commit (init_state ''host'') False None) True (Some 5))
     \<le> total_sent (ping_commit (ping_commit (init_state ''host'') False None) True (Some 5))
   \<and> total_sent (ping_commit (init_state ''host'') False None)
       \<le> total_sent (ping_commit (ping_commit (init_state ''host'') False None) True (Some 5))
   \<and> total_sent (ping_commit (init_state ''host'') False None) = 1
   \<and> total_recv (ping_commit (init_state ''host'') False None) = 0"
proof -
  let ?s0 = "init_state ''host''"
  let ?s1 = "ping_commit ?s0 False None"
  let ?s2 = "ping_commit ?s1 True (Some 5)"
  have a: "step ?s0 ?s1" and b: "step ?s1 ?s2"
    by (rule step_ping)+
  have r2: "step\<^sup>*\<^sup>* ?s0 ?s2" using a b by simp
  have r1: "step\<^sup>*\<^sup>* ?s1 ?s2" using b by simp
  show ?thesis
    using counters_invariant [of "''host''" ?s2 ?s2 False None] r2
      counters_invariant [of "''host''" ?s1 ?s2 True "Some 5"] r1
      counters_invariant [of "''host''" ?s0 ?s1 False None]
    by (simp add: init_state_fields)
qed

text \<open>
  Claim C7. The key \<open>+\<close> sets the window to \<open>min (window_size + 10) 300\<close>, the key \<open>-\<close>
  to \<open>max (window_size - 10) 10\<close>; at a bound the same key leaves the window at the
  bound; every command keeps a window within 10 and 300 there, and so it is within these
  bounds in every state reached from the initial one.
\<close>

theorem window_size_clamped:
  "window_size (handle_key s (py_ord CHR ''+'')) = min (window_size s + 10) 300
   \<and> window_size (handle_key s (py_ord CHR ''-'')) = max (window_size s - 10) 10
   \<and> (window_size s = 300 \<longrightarrow> window_size (handle_key s (py_ord CHR ''+'')) = 300)
   \<and> (window_size s = 10 \<longrightarrow> window_size (handle_key s (py_ord CHR ''-'')) = 10)
   \<and> (10 \<le> window_size s \<and> window_size s \<le> 300 \<longrightarrow>
        10 \<le> window_size (handle_key s ch) \<and> window_size (handle_key s ch) \<le> 300)
   \<and> (step\<^sup>*\<^sup>* (init_state host) s \<longrightarrow> 10 \<le> window_size s \<and> window_size s \<le> 300)"
  using handle_key_window_range [of s ch] steps_window [of "init_state host" s]
  by (simp add: handle_key_plus handle_key_minus init_state_fields)

theorem window_size_clamped_witness:
  "window_size (handle_key ((init_state ''host'')\<lparr>window_size := 300\<rparr>) (py_ord CHR ''+'')) = 300
   \<and> window_size (handle_key ((init_state ''host'')\<lparr>window_size := 10\<rparr>) (py_ord CHR ''-'')) = 10
   \<and> window_size (handle_key (init_state ''host'') (py_ord CHR ''+'')) = 70
   \<and> window_size (handle_key (init_state ''host'') (py_ord CHR ''-'')) = 50
   \<and> 10 \<le> window_size (handle_key (init_state ''host'') (py_ord CHR ''+''))"
proof -
  have st: "step\<^sup>*\<^sup>* (init_state ''host'') (handle_key (init_state ''host'') (py_ord CHR ''+''))"
    using step_key [of "init_state ''host''" "py_ord CHR ''+''"] by simp
  show ?thesis
    using window_size_clamped [of "(init_state ''host'')\<lparr>window_size := 300\<rparr>" 0 "''host''"]
      window_size_clamped [of "(init_state ''host'')\<lparr>window_size := 10\<rparr>" 0 "''host''"]
      window_size_clamped [of "init_state ''host''" 0 "''host''"]
      window_size_clamped [of "handle_key (init_state ''host'') (py_ord CHR ''+'')" 0 "''host''"] st
    by (simp add: init_state_fields)
qed

text \<open>
  Claim C8. Both histories hold at most 300 entries in every state reached from the
  initial one, and every step preserves the bound. A ping cycle appends at the right end
  while there is room, and on a full history drops the oldest entry and keeps the others
  in order. After any sequence of ping cycles from the initial state the latency history
  is the last 300 entries in order; after 301 of them it is all but the first.
\<close>

theorem history_bounded_fifo:
  "(step\<^sup>*\<^sup>* (init_state host) s \<longrightarrow>
      length (ping_history s) \<le> 300 \<and> length (loss_history s) \<le> 300)
   \<and> (step s s' \<and> length (ping_history s) \<le> 300 \<and> length (loss_history s) \<le> 300 \<longrightarrow>
        length (ping_history s') \<le> 300 \<and> length (loss_history s') \<le> 300)
   \<and> (length (ping_history s) < 300 \<longrightarrow>
        ping_history (ping_commit s success rtt) =
          ping_history s @ [if success then rtt else None])
   \<and> (length (ping_history s) = 300 \<longrightarrow>
        ping_history (ping_commit s success rtt) =
          tl (ping_history s) @ [if success then rtt else None])
   \<and> (length (loss_history s) < 300 \<longrightarrow>
        butlast (loss_history (ping_commit s success rtt)) = loss_history s)
   \<and> (length (loss_history s) = 300 \<longrightarrow>
        butlast (loss_history (ping_commit s success rtt)) = tl (loss_history s))
   \<and> ping_history (foldl (\<lambda>st (b, r). ping_commit st b r) (init_state host) rs) =
        drop (length rs - 300) (map (\<lambda>(b, r). if b then r else None) rs)
   \<and> (length rs = 301 \<longrightarrow>
        ping_history (foldl (\<lambda>st (b, r). ping_commit st b r) (init_state host) rs) =
          tl (map (\<lambda>(b, r). if b then r else None) rs))"
proof -
  have fold: "ping_history (foldl (\<lambda>st (b, r). ping_commit st b r) (init_state host) rs) =
        drop (length rs - 300) (map (\<lambda>(b, r). if b then r else None) rs)"
    using ping_history_foldl [of "init_state host" rs] by (simp add: init_state_fields)
  have one: "length rs = 301 \<Longrightarrow>
      drop (length rs - 300) (map (\<lambda>(b, r). if b then r else None) rs) =
      tl (map (\<lambda>(b, r). if b then r else None) rs)"
    by (simp add: drop_Suc)
  show ?thesis
    using steps_history [of "init_state host" s] step_history [of s s'] fold one
    by (simp add: init_state_fields ping_commit_ping_history ping_commit_loss_history
        deque_append_room deque_append_full PING_HISTORY_LENGTH_def LOSS_HISTORY_LENGTH_def)
qed

theorem history_bounded_fifo_witness:
  "ping_history (ping_commit (init_state ''host'') True (Some 5)) = [Some 5]
   \<and> ping_history
        (ping_commit ((init_state ''host'')\<lparr>ping_history := Some 1 # replicate 299 None\<rparr>)
           False None) = replicate 299 None @ [None]
   \<and> length (ping_history (ping_commit (init_state ''host'') True (Some 5))) \<le> 300
   \<and> ping_history
        (foldl (\<lambda>st (b, r). ping_commit st b r) (init_state ''host'')
           (replicate 301 (True, Some 1))) =
      tl (map (\<lambda>(b, r). if b then r else None) (replicate 301 (True, Some 1)))"
proof -
  let ?s0 = "init_state ''host''"
  let ?s1 = "ping_commit ?s0 True (Some 5)"
  let ?full = "?s0\<lparr>ping_history := Some 1 # replicate 299 None\<rparr>"
  have r: "step\<^sup>*\<^sup>* ?s0 ?s1"
    using step_ping [of ?s0 True "Some 5"] by simp
  have len: "length (ping_history ?full) = 300" by simp
  show ?thesis
    using history_bounded_fifo [of "''host''" ?s1 ?s1 True "Some 5" "replicate 301 (True, Some 1)"] r
      history_bounded_fifo [of "''host''" ?s0 ?s1 True "Some 5" "[]"]
      history_bounded_fifo [of "''host''" ?full ?s1 False None "[]"] len
    by (simp add: init_state_fields)
qed

section \<open>Properties of the classification and of the alerts\<close>

lemma draw_ui_quality_Inr:
  "\<exists>st. compute_recent_stats h w = Inr st \<and> draw_ui_quality h w = Inr (quality_label st w)"
  using compute_recent_stats_Inr [of h w] by (auto simp: draw_ui_quality_def bind_sum_def)

text \<open>
  Claim C4. The quality label is \<open>QUALITY_UNKNOWN\<close> exactly when the count is below
  \<open>max 20 (window_size div 2)\<close> or there is no average. Otherwise the tiers are tried in
  the order excellent, good, fair, poor, each with strict comparisons; hence a loss of
  exactly 1 percent or an average of exactly 40 ms is never excellent. \<^verbatim>\<open>draw_ui\<close>
  applies the label to the statistics of the window, which always exist. The half of the
  window is the integer division of the source; for an even window it is the exact half,
  and the window is even in every state reached from the initial one.
\<close>

theorem quality_classification:
  "(even w \<longrightarrow> ((of_int c :: rat) < max 20 (of_int w / 2)) = (c < max 20 (w div 2)))
   \<and> (step\<^sup>*\<^sup>* (init_state host) s \<longrightarrow> even (window_size s))
   \<and> (c < max 20 (w div 2) \<or> avg = None \<longrightarrow>
      quality_label (loss, avg, c, lost, mn, mx, jit) w = QUALITY_UNKNOWN)
   \<and> (quality_label (loss, avg, c, lost, mn, mx, jit) w = QUALITY_UNKNOWN \<longrightarrow>
        c < max 20 (w div 2) \<or> avg = None)
   \<and> (quality_label (loss, avg, c, lost, mn, mx, jit) w = QUALITY_EXCELLENT \<longleftrightarrow>
        c \<ge> max 20 (w div 2) \<and>
        (\<exists>a. avg = Some a \<and> loss < 1 \<and> a < 40 \<and> (jit = None \<or> (\<exists>j. jit = Some j \<and> j < 5))))
   \<and> (quality_label (loss, avg, c, lost, mn, mx, jit) w = QUALITY_GOOD \<longleftrightarrow>
        c \<ge> max 20 (w div 2) \<and>
        (\<exists>a. avg = Some a \<and>
           \<not> (loss < 1 \<and> a < 40 \<and> (jit = None \<or> (\<exists>j. jit = Some j \<and> j < 5))) \<and>
           loss < 2 \<and> a < 80))
   \<and> (quality_label (loss, avg, c, lost, mn, mx, jit) w = QUALITY_FAIR \<longleftrightarrow>
        c \<ge> max 20 (w div 2) \<and>
        (\<exists>a. avg = Some a \<and> \<not> (loss < 2 \<and> a < 80) \<and> loss < 5 \<and> a < 150))
   \<and> (quality_label (loss, avg, c, lost, mn, mx, jit) w = QUALITY_POOR \<longleftrightarrow>
        c \<ge> max 20 (w div 2) \<and> (\<exists>a. avg = Some a \<and> \<not> (loss < 5 \<and> a < 150)))
   \<and> (loss = 1 \<or> avg = Some 40 \<longrightarrow>
        quality_label (loss, avg, c, lost, mn, mx, jit) w \<noteq> QUALITY_EXCELLENT)
   \<and> (\<exists>st. compute_recent_stats h w = Inr st \<and>
             draw_ui_quality h w = Inr (quality_label st w))"
proof -
  have half: "even w \<longrightarrow> ((of_int c :: rat) < max 20 (of_int w / 2)) = (c < max 20 (w div 2))"
    using half_window_readings [of w c] by simp
  have reach: "step\<^sup>*\<^sup>* (init_state host) s \<longrightarrow> even (window_size s)"
    using steps_window_even [of "init_state host" s] by (simp add: init_state_fields)
  have ev: "quality_label (loss, Some a, c, lost, mn, mx, jit) w =
      (if c < max 20 (w div 2) then QUALITY_UNKNOWN
       else if loss < 1 \<and> a < 40 \<and> (jit = None \<or> (\<exists>j. jit = Some j \<and> j < 5))
         then QUALITY_EXCELLENT
       else if loss < 2 \<and> a < 80 then QUALITY_GOOD
       else if loss < 5 \<and> a < 150 then QUALITY_FAIR
       else QUALITY_POOR)" for a
    by (cases jit) (auto simp: quality_label_def)
  have tiers: "(c < max 20 (w div 2) \<or> avg = None \<longrightarrow>
      quality_label (loss, avg, c, lost, mn, mx, jit) w = QUALITY_UNKNOWN)
   \<and> (quality_label (loss, avg, c, lost, mn, mx, jit) w = QUALITY_UNKNOWN \<longrightarrow>
        c < max 20 (w div 2) \<or> avg = None)
   \<and> (quality_label (loss, avg, c, lost, mn, mx, jit) w = QUALITY_EXCELLENT \<longleftrightarrow>
        c \<ge> max 20 (w div 2) \<and>
        (\<exists>a. avg = Some a \<and> loss < 1 \<and> a < 40 \<and> (jit = None \<or> (\<exists>j. jit = Some j \<and> j < 5))))
   \<and> (quality_label (loss, avg, c, lost, mn, mx, jit) w = QUALITY_GOOD \<longleftrightarrow>
        c \<ge> max 20 (w div 2) \<and>
        (\<exists>a. avg = Some a \<and>
           \<not> (loss < 1 \<and> a < 40 \<and> (jit = None \<or> (\<exists>j. jit = Some j \<and> j < 5))) \<and>
           loss < 2 \<and> a < 80))
   \<and> (quality_label (loss, avg, c, lost, mn, mx, jit) w = QUALITY_FAIR \<longleftrightarrow>
        c \<ge> max 20 (w div 2) \<and>
        (\<exists>a. avg = Some a \<and> \<not> (loss < 2 \<and> a < 80) \<and> loss < 5 \<and> a < 150))
   \<and> (quality_label (loss, avg, c, lost, mn, mx, jit) w = QUALITY_POOR \<longleftrightarrow>
        c \<ge> max 20 (w div 2) \<and> (\<exists>a. avg = Some a \<and> \<not> (loss < 5 \<and> a < 150)))
   \<and> (loss = 1 \<or> avg = Some 40 \<longrightarrow>
        quality_label (loss, avg, c, lost, mn, mx, jit) w \<noteq> QUALITY_EXCELLENT)
   \<and> (\<exists>st. compute_recent_stats h w = Inr st \<and>
             draw_ui_quality h w = Inr (quality_label st w))"
  proof (cases avg)
    case None
    then show ?thesis
      using draw_ui_quality_Inr [of h w] by (simp add: quality_label_def)
  next
    case (Some a)
    show ?thesis
      unfolding Some ev using draw_ui_quality_Inr [of h w] by auto
  qed
  show ?thesis
    by (rule conjI [OF half conjI [OF reach tiers]])
qed

theorem quality_classification_witness:
  "quality_label (0, Some 30, 19, 0, Some 30, Some 30, None) 30 = QUALITY_UNKNOWN
   \<and> quality_label (100, None, 20, 20, None, None, None) 30 = QUALITY_UNKNOWN
   \<and> quality_label (0, Some 30, 20, 0, Some 30, Some 30, Some 2) 30 = QUALITY_EXCELLENT
   \<and> quality_label (1, Some 30, 100, 1, Some 30, Some 30, Some 2) 100 = QUALITY_GOOD
   \<and> quality_label (0, Some 40, 100, 0, Some 40, Some 40, Some 0) 100 = QUALITY_GOOD
   \<and> quality_label (0, Some 40, 100, 0, Some 40, Some 40, Some 0) 100 \<noteq> QUALITY_EXCELLENT
   \<and> even (window_size (handle_key (init_state ''host'') (py_ord CHR ''+'')))"
proof -
  let ?s = "handle_key (init_state ''host'') (py_ord CHR ''+'')"
  have st: "step\<^sup>*\<^sup>* (init_state ''host'') ?s"
    using step_key [of "init_state ''host''" "py_ord CHR ''+''"] by simp
  show ?thesis
    using quality_classification [where c = 19 and w = 30 and avg = "Some 30" and loss = 0
        and lost = 0 and mn = "Some 30" and mx = "Some 30" and jit = None and h = "[]"
        and host = "''host''" and s = ?s] st
      quality_classification [where c = 20 and w = 30 and avg = None and loss = 100
        and lost = 20 and mn = None and mx = None and jit = None and h = "[]"
        and host = "''host''" and s = ?s]
      quality_classification [where c = 20 and w = 30 and avg = "Some 30" and loss = 0
        and lost = 0 and mn = "Some 30" and mx = "Some 30" and jit = "Some 2" and h = "[]"
        and host = "''host''" and s = ?s]
      quality_classification [where c = 100 and w = 100 and avg = "Some 30" and loss = 1
        and lost = 1 and mn = "Some 30" and mx = "Some 30" and jit = "Some 2" and h = "[]"
        and host = "''host''" and s = ?s]
      quality_classification [where c = 100 and w = 100 and avg = "Some 40" and loss = 0
        and lost = 0 and mn = "Some 40" and mx = "Some 40" and jit = "Some 0" and h = "[]"
        and host = "''host''" and s = ?s]
    by simp
qed

lemma draw_ui_alert_Inr:
  "\<exists>st. compute_recent_stats h SHORT_WINDOW_SIZE = Inr st
        \<and> draw_ui_alert h = Inr (alert_text st)
        \<and> stats_count st = min 10 (int (length h))
        \<and> (stats_avg st = None \<longleftrightarrow> stats_max st = None)"
proof -
  obtain st where st: "compute_recent_stats h SHORT_WINDOW_SIZE = Inr st"
    using compute_recent_stats_Inr by blast
  have "stats_count st = min 10 (int (length h))"
    using compute_recent_stats_count [of SHORT_WINDOW_SIZE h st] st
    by (simp add: SHORT_WINDOW_SIZE_def)
  moreover have "stats_avg st = None \<longleftrightarrow> stats_max st = None"
    using compute_recent_stats_avg_max [OF st] .
  ultimately show ?thesis
    using st by (simp add: draw_ui_alert_def bind_sum_def)
qed

text \<open>
  Claim C9. The alert over the short window of 10 samples is a single value. It is the
  delay spike exactly when the count is at least 5, an average and a maximum exist, the
  maximum exceeds 3 times the average and exceeds it by more than 100 ms; it is the
  high-loss alert exactly when the spike does not fire, the count is at least 5 and the
  loss is at least 10 percent. In the statistics that \<^verbatim>\<open>draw_ui\<close> evaluates, a maximum
  exists whenever an average does.
\<close>

theorem alert_evaluation:
  "(alert_text (loss, avg, c, lost, mn, mx, jit) = ALERT_DELAY_SPIKE \<longleftrightarrow>
      c \<ge> 5 \<and> (\<exists>a m. avg = Some a \<and> mx = Some m \<and> m > 3 * a \<and> m - a > 100))
   \<and> (alert_text (loss, avg, c, lost, mn, mx, jit) = ALERT_HIGH_LOSS \<longleftrightarrow>
        alert_text (loss, avg, c, lost, mn, mx, jit) \<noteq> ALERT_DELAY_SPIKE
        \<and> c \<ge> 5 \<and> loss \<ge> 10)
   \<and> (alert_text (loss, avg, c, lost, mn, mx, jit) = NO_ALERT \<longleftrightarrow>
        alert_text (loss, avg, c, lost, mn, mx, jit) \<noteq> ALERT_DELAY_SPIKE
        \<and> \<not> (c \<ge> 5 \<and> loss \<ge> 10))
   \<and> (\<exists>st. compute_recent_stats h SHORT_WINDOW_SIZE = Inr st
          \<and> draw_ui_alert h = Inr (alert_text st)
          \<and> stats_count st = min 10 (int (length h))
          \<and> (stats_avg st = None \<longleftrightarrow> stats_max st = None))"
proof -
  have "alert_text (loss, avg, c, lost, mn, mx, jit) =
      (if c \<ge> 5 \<and> (\<exists>a m. avg = Some a \<and> mx = Some m \<and> m > 3 * a \<and> m - a > 100)
       then ALERT_DELAY_SPIKE
       else if c \<ge> 5 \<and> loss \<ge> 10 then ALERT_HIGH_LOSS else NO_ALERT)"
    by (cases avg; cases mx) (auto simp: alert_text_def SHORT_WINDOW_SIZE_def)
  then show ?thesis
    using draw_ui_alert_Inr [of h] by auto
qed

theorem alert_evaluation_witness:
  "alert_text (20, Some 108, 5, 1, Some 10, Some 500, Some 0) = ALERT_DELAY_SPIKE
   \<and> alert_text (20, Some 10, 5, 1, Some 10, Some 10, Some 0) = ALERT_HIGH_LOSS
   \<and> alert_text (20, Some 10, 4, 1, Some 10, Some 10, Some 0) = NO_ALERT
   \<and> draw_ui_alert [Some 10, Some 10, Some 10, None, Some 10, Some 500] = Inr ALERT_DELAY_SPIKE"
proof -
  have "draw_ui_alert [Some 10, Some 10, Some 10, None, Some 10, Some 500] = Inr ALERT_DELAY_SPIKE"
    by (simp add: draw_ui_alert_def compute_recent_stats_def slice_last_def Let_def bind_sum_def
        py_truediv_def py_min_def py_max_def deltas_of_def upt_conv_Cons SHORT_WINDOW_SIZE_def
        alert_text_def)
  then show ?thesis
    using alert_evaluation [of 20 "Some 108" 5 1 "Some 10" "Some 500" "Some 0" "[]"]
      alert_evaluation [of 20 "Some 10" 5 1 "Some 10" "Some 10" "Some 0" "[]"]
      alert_evaluation [of 20 "Some 10" 4 1 "Some 10" "Some 10" "Some 0" "[]"]
    by simp
qed

section \<open>Properties of the path-trace parser\<close>

lemma L1_hop: "hop_match ''1  10.0.0.1 (10.0.0.1)  1.2 ms  1.1 ms'' =
    Some (''1'', ''10.0.0.1 (10.0.0.1)  1.2 ms  1.1 ms'')"
  by code_simp

lemma L1_rtts: "line_rtts ''1  10.0.0.1 (10.0.0.1)  1.2 ms  1.1 ms'' = [12 / 10, 11 / 10]"
  by code_simp

lemma L2_hop: "hop_match ''2  * * *'' = Some (''2'', ''* * *'')"
  by code_simp

lemma L2_rtts: "line_rtts ''2  * * *'' = []"
  by code_simp

lemma L1_row: "hop_row ''1  10.0.0.1 (10.0.0.1)  1.2 ms  1.1 ms'' =
    Some (HopRow 1 (format_40 ''10.0.0.1'') (RttMinAvgMax (11 / 10) (115 / 100) (12 / 10)))"
  by code_simp

lemma L2_row: "hop_row ''2  * * *'' = Some (HopRow 2 (format_40 ''*'') RttTimeout)"
  by code_simp

lemma summary_example:
  "build_traceroute_summary [''1  10.0.0.1 (10.0.0.1)  1.2 ms  1.1 ms'', ''2  * * *''] =
     Some \<lparr>summary_hops = 2, summary_max_ms = 0,
           summary_timeout_info = TRACE_TIMEOUT_INFO_SOME [2]\<rparr>"
  by code_simp

lemma foldl_update_max_ms_Some:
  "foldl update_max_ms (Some m) vs = Some (Max (set (m # vs)))"
proof (induction vs arbitrary: m)
  case Nil
  show ?case by simp
next
  case (Cons v vs)
  have ge: "v \<le> Max (insert v (set vs))" by simp
  show ?case
  proof (cases "v > m")
    case True
    have "Max (insert m (insert v (set vs))) = max m (Max (insert v (set vs)))"
      by (rule Max_insert) simp_all
    also have "\<dots> = Max (insert v (set vs))"
    proof -
      have "m \<le> Max (insert v (set vs))" using True ge by linarith
      then show ?thesis by (rule max_absorb2)
    qed
    finally show ?thesis
      using True Cons [of v] by (simp add: update_max_ms_def)
  next
    case False
    have "Max (insert m (insert v (set vs))) = Max (insert v (insert m (set vs)))"
      by (simp add: insert_commute)
    also have "\<dots> = max v (Max (insert m (set vs)))"
      by (rule Max_insert) simp_all
    also have "\<dots> = Max (insert m (set vs))"
    proof -
      have "m \<le> Max (insert m (set vs))" by simp
      then have "v \<le> Max (insert m (set vs))" using False by linarith
      then show ?thesis by (rule max_absorb2)
    qed
    finally show ?thesis
      using False Cons [of m] by (simp add: update_max_ms_def)
  qed
qed

lemma foldl_update_max_ms_None:
  "foldl update_max_ms None vs = (if vs = [] then None else Some (Max (set vs)))"
  by (cases vs) (simp_all add: foldl_update_max_ms_Some update_max_ms_def)

lemma foldl_update_max_ms_append:
  "foldl update_max_ms m (vs @ ws) = foldl update_max_ms (foldl update_max_ms m vs) ws"
  by simp

lemma foldl_summary_step_max:
  "snd (snd (foldl summary_step (hs, ts, m) ls)) =
     foldl update_max_ms m (concat (map line_rtts (filter (\<lambda>l. hop_match l \<noteq> None) ls)))"
proof (induction ls arbitrary: hs ts m)
  case Nil
  show ?case by simp
next
  case (Cons l ls)
  show ?case
  proof (cases "hop_match l")
    case None
    then show ?thesis using Cons by (simp add: summary_step_def)
  next
    case (Some p)
    obtain ds after where p: "p = (ds, after)" by (cases p)
    show ?thesis
      using Some p Cons by (simp add: summary_step_def Let_def)
  qed
qed

lemma build_traceroute_summary_max:
  assumes "build_traceroute_summary lines = Some sm"
    and "vs = concat (map line_rtts (filter (\<lambda>l. hop_match l \<noteq> None) (drop 1 lines)))"
  shows "summary_max_ms sm = (if vs = [] then 0 else Max (set vs))"
proof -
  obtain hs ts m where f: "foldl summary_step ([], [], None) (drop 1 lines) = (hs, ts, m)"
    by (cases "foldl summary_step ([], [], None) (drop 1 lines)")
  have "m = foldl update_max_ms None vs"
    using foldl_summary_step_max [of "[]" "[]" None "drop 1 lines"] f assms(2) by simp
  then have m: "m = (if vs = [] then None else Some (Max (set vs)))"
    by (simp only: foldl_update_max_ms_None)
  have "summary_max_ms sm = (case m of None \<Rightarrow> 0 | Some v \<Rightarrow> v)"
    using assms(1) f by (auto simp: build_traceroute_summary_def split: if_splits)
  then show ?thesis
    by (cases "vs = []") (simp_all add: m)
qed

lemma build_traceroute_summary_skips_first:
  "build_traceroute_summary (l # ls) = build_traceroute_summary (l' # ls)"
  by (simp add: build_traceroute_summary_def)


lemma table_example:
  "build_traceroute_table [''1  10.0.0.1 (10.0.0.1)  1.2 ms  1.1 ms'', ''2  * * *''] =
     [HeaderRow,
      HopRow 1 (format_40 ''10.0.0.1'') (RttMinAvgMax 1.1 1.15 1.2),
      HopRow 2 (format_40 ''*'') RttTimeout]"
  by code_simp

lemma summary_example_header:
  "build_traceroute_summary
     [header, ''1  10.0.0.1 (10.0.0.1)  1.2 ms  1.1 ms'', ''2  * * *''] =
     Some \<lparr>summary_hops = 2, summary_max_ms = 1.2,
           summary_timeout_info = TRACE_TIMEOUT_INFO_SOME [2]\<rparr>"
proof -
  have "build_traceroute_summary
     ['''', ''1  10.0.0.1 (10.0.0.1)  1.2 ms  1.1 ms'', ''2  * * *''] =
     Some \<lparr>summary_hops = 2, summary_max_ms = 1.2,
           summary_timeout_info = TRACE_TIMEOUT_INFO_SOME [2]\<rparr>"
    by code_simp
  then show ?thesis
    using build_traceroute_summary_skips_first [of header _ "''''"] by simp
qed

text \<open>
  Claim C2, as stated, fails: on the two lines alone the summary reports 0, not 1.2, as
  the maximum delay, because the line of hop 1 is the first line of the input.
\<close>

theorem build_traceroute_summary_counterexample:
  "build_traceroute_summary [''1  10.0.0.1 (10.0.0.1)  1.2 ms  1.1 ms'', ''2  * * *''] =
     Some \<lparr>summary_hops = 2, summary_max_ms = 0,
           summary_timeout_info = TRACE_TIMEOUT_INFO_SOME [2]\<rparr>
   \<and> map_option summary_max_ms
        (build_traceroute_summary [''1  10.0.0.1 (10.0.0.1)  1.2 ms  1.1 ms'', ''2  * * *''])
       \<noteq> Some 1.2"
  by (simp add: summary_example)

text \<open>
  Claim C2, amended. On the two lines of the scenario the parser of the table finds hop 1
  with the samples 1.2 and 1.1 (minimum 1.1, average 1.15, maximum 1.2) and hop 2 as a
  timeout. \<^const>\<open>build_traceroute_summary\<close> never reads the first line of its input (it
  is skipped as a potential header): on the two lines alone it reports hop count 2, hop 2
  as the only timeout and maximum delay 0; when the two lines follow any header line it
  reports hop count 2, hop 2 as the only timeout and maximum delay 1.2. In general the
  maximum delay of a summary is the largest sample on the hop lines after the first line,
  and 0 when they hold no sample.
\<close>

theorem traceroute_parse_example:
  "line_rtts ''1  10.0.0.1 (10.0.0.1)  1.2 ms  1.1 ms'' = [1.2, 1.1]
   \<and> hop_row ''1  10.0.0.1 (10.0.0.1)  1.2 ms  1.1 ms'' =
       Some (HopRow 1 (format_40 ''10.0.0.1'') (RttMinAvgMax 1.1 1.15 1.2))
   \<and> line_rtts ''2  * * *'' = []
   \<and> hop_row ''2  * * *'' = Some (HopRow 2 (format_40 ''*'') RttTimeout)
   \<and> build_traceroute_table [''1  10.0.0.1 (10.0.0.1)  1.2 ms  1.1 ms'', ''2  * * *''] =
       [HeaderRow,
        HopRow 1 (format_40 ''10.0.0.1'') (RttMinAvgMax 1.1 1.15 1.2),
        HopRow 2 (format_40 ''*'') RttTimeout]
   \<and> build_traceroute_summary [''1  10.0.0.1 (10.0.0.1)  1.2 ms  1.1 ms'', ''2  * * *''] =
       Some \<lparr>summary_hops = 2, summary_max_ms = 0,
             summary_timeout_info = TRACE_TIMEOUT_INFO_SOME [2]\<rparr>
   \<and> build_traceroute_summary
         [header, ''1  10.0.0.1 (10.0.0.1)  1.2 ms  1.1 ms'', ''2  * * *''] =
       Some \<lparr>summary_hops = 2, summary_max_ms = 1.2,
             summary_timeout_info = TRACE_TIMEOUT_INFO_SOME [2]\<rparr>
   \<and> build_traceroute_summary (l # ls) = build_traceroute_summary (l' # ls)
   \<and> (build_traceroute_summary lines = Some sm \<longrightarrow>
        summary_max_ms sm =
          (if concat (map line_rtts (filter (\<lambda>l. hop_match l \<noteq> None) (drop 1 lines))) = []
           then 0
           else Max (set (concat (map line_rtts
                  (filter (\<lambda>l. hop_match l \<noteq> None) (drop 1 lines)))))))"
  using build_traceroute_summary_max [of lines sm, OF _ refl]
    build_traceroute_summary_skips_first [of l ls l']
  by (simp add: L1_rtts L1_row L2_rtts L2_row table_example summary_example
      summary_example_header)

theorem traceroute_parse_example_witness:
  "summary_max_ms
     \<lparr>summary_hops = 2, summary_max_ms = 0,
      summary_timeout_info = TRACE_TIMEOUT_INFO_SOME [2]\<rparr> =
   (if concat (map line_rtts (filter (\<lambda>l. hop_match l \<noteq> None)
         (drop 1 [''1  10.0.0.1 (10.0.0.1)  1.2 ms  1.1 ms'', ''2  * * *'']))) = []
    then 0
    else Max (set (concat (map line_rtts (filter (\<lambda>l. hop_match l \<noteq> None)
         (drop 1 [''1  10.0.0.1 (10.0.0.1)  1.2 ms  1.1 ms'', ''2  * * *'']))))))
   \<and> build_traceroute_summary
        [''traceroute to 10.0.0.1 (10.0.0.1), 30 hops max'',
         ''1  10.0.0.1 (10.0.0.1)  1.2 ms  1.1 ms'', ''2  * * *''] =
      Some \<lparr>summary_hops = 2, summary_max_ms = 1.2,
            summary_timeout_info = TRACE_TIMEOUT_INFO_SOME [2]\<rparr>"
proof -
  have s: "build_traceroute_summary
      [''1  10.0.0.1 (10.0.0.1)  1.2 ms  1.1 ms'', ''2  * * *''] =
     Some \<lparr>summary_hops = 2, summary_max_ms = 0,
           summary_timeout_info = TRACE_TIMEOUT_INFO_SOME [2]\<rparr>"
    by (rule summary_example)
  show ?thesis
    using traceroute_parse_example
      [of "''traceroute to 10.0.0.1 (10.0.0.1), 30 hops max''" "''x''" "[]" "''y''"
        "[''1  10.0.0.1 (10.0.0.1)  1.2 ms  1.1 ms'', ''2  * * *'']"
        "\<lparr>summary_hops = 2, summary_max_ms = 0,
          summary_timeout_info = TRACE_TIMEOUT_INFO_SOME [2]\<rparr>"] s
    by blast
qed

end
